theory Spec2Isabelle
  imports Main
begin

section \<open>Strings, values and errors of the host language\<close>

text \<open>
  A string of the program is a sequence of UTF-16 code units, and \<open>s.length\<close> counts
  them. The box-drawing glyphs of the renderer are single code units above the ASCII
  range, so a code unit is a natural number and not a \<open>char\<close>.
\<close>

type_synonym code_unit = nat
type_synonym jstring = "code_unit list"

definition lit :: "string \<Rightarrow> jstring" where
  "lit s = map of_char s"

definition space :: code_unit where
  "space = 32"

text \<open>The values \<open>JSON.parse\<close> and \<open>response.json()\<close> produce. A number is held as
  its canonical rendering (\<open>Number.prototype.toString\<close>), which identifies a JSON number
  up to the sign of zero, as the equality of \<open>Set\<close> does.\<close>

datatype json =
    JNull
  | JBool bool
  | JNumber jstring
  | JString jstring
  | JArray "json list"
  | JObject "(jstring \<times> json) list"

text \<open>Exceptions: the class and the \<open>message\<close> of the error object.\<close>

datatype js_error =
    Error jstring
  | RangeError jstring
  | SyntaxError jstring
  | OtherError jstring

fun message :: "js_error \<Rightarrow> jstring" where
  "message (Error m) = m"
| "message (RangeError m) = m"
| "message (SyntaxError m) = m"
| "message (OtherError m) = m"

text \<open>The styling functions of \<open>std/fmt/colors.ts\<close> are not part of this repository:
  they are parameters. With colours disabled (\<open>NO_COLOR\<close>) each is the identity, which
  is \<open>plain\<close>; enabled, each wraps its argument in ANSI escape sequences.\<close>

record style =
  bold :: "jstring \<Rightarrow> jstring"
  cyan :: "jstring \<Rightarrow> jstring"
  gray :: "jstring \<Rightarrow> jstring"
  italic :: "jstring \<Rightarrow> jstring"
  magenta :: "jstring \<Rightarrow> jstring"
  yellow :: "jstring \<Rightarrow> jstring"

definition plain :: style where
  "plain = \<lparr> bold = (\<lambda>s. s), cyan = (\<lambda>s. s), gray = (\<lambda>s. s),
             italic = (\<lambda>s. s), magenta = (\<lambda>s. s), yellow = (\<lambda>s. s) \<rparr>"

text \<open>With colours enabled, after the library's \<open>run\<close>: the opening escape sequence,
  the string with every closing sequence in it replaced by the opening one, and the closing
  sequence. The codes are those of \<open>bold\<close>, \<open>cyan\<close>, \<open>gray\<close> (bright black), \<open>italic\<close>,
  \<open>magenta\<close> and \<open>yellow\<close>.\<close>

function replace_all :: "jstring \<Rightarrow> jstring \<Rightarrow> jstring \<Rightarrow> jstring" where
  "replace_all pat rep [] = []"
| "replace_all pat rep (c # cs) =
     (if pat \<noteq> [] \<and> take (length pat) (c # cs) = pat
      then rep @ replace_all pat rep (drop (length pat) (c # cs))
      else c # replace_all pat rep cs)"
  by pat_completeness auto
termination
  by (relation "measure (\<lambda>(pat, rep, s). length s)") auto

definition esc :: "jstring \<Rightarrow> jstring" where
  "esc n = [27, 91] @ n @ [109]"

definition run :: "jstring \<Rightarrow> jstring \<Rightarrow> jstring \<Rightarrow> jstring" where
  "run opening closing str =
     esc opening @ replace_all (esc closing) (esc opening) str @ esc closing"

definition ansi :: style where
  "ansi = \<lparr> bold = run (lit ''1'') (lit ''22''), cyan = run (lit ''36'') (lit ''39''),
            gray = run (lit ''90'') (lit ''39''), italic = run (lit ''3'') (lit ''23''),
            magenta = run (lit ''35'') (lit ''39''), yellow = run (lit ''33'') (lit ''39'') \<rparr>"

text \<open>What a terminal shows of a string: the escape sequences, from the escape character
  to the next \<open>m\<close>, take no column.\<close>

function visible :: "jstring \<Rightarrow> jstring" where
  "visible [] = []"
| "visible (c # cs) =
     (if c = 27 then visible (drop 1 (dropWhile (\<lambda>d. d \<noteq> 109) cs)) else c # visible cs)"
  by pat_completeness auto
termination
  by (relation "measure length")
     (auto simp: le_imp_less_Suc length_dropWhile_le order.trans[OF diff_le_self])

section \<open>loadWordList\<close>

text \<open>\<open>new Set(xs)\<close> followed by a spread: the elements in the order of their first
  insertion. Membership is SameValueZero: primitives are compared by value, while every
  array or object of a parsed document is an object of its own and equals no other
  element. On strings SameValueZero is equality.\<close>

fun same_value_zero :: "json \<Rightarrow> json \<Rightarrow> bool" where
  "same_value_zero (JArray _) _ = False"
| "same_value_zero (JObject _) _ = False"
| "same_value_zero x y = (x = y)"

definition set_has :: "('a \<Rightarrow> 'a \<Rightarrow> bool) \<Rightarrow> 'a list \<Rightarrow> 'a \<Rightarrow> bool" where
  "set_has same s x = list_ex (\<lambda>y. same y x) s"

definition set_add :: "('a \<Rightarrow> 'a \<Rightarrow> bool) \<Rightarrow> 'a list \<Rightarrow> 'a \<Rightarrow> 'a list" where
  "set_add same s x = (if set_has same s x then s else s @ [x])"

definition new_Set :: "('a \<Rightarrow> 'a \<Rightarrow> bool) \<Rightarrow> 'a list \<Rightarrow> 'a list" where
  "new_Set same xs = foldl (set_add same) [] xs"

text \<open>What the two sources of words deliver. The default list is \<open>words.json\<close>,
  shipped beside the program: a JSON array, given by its elements. The custom list is
  whatever the user's file holds.\<close>

datatype default_source =
    FetchThrew jstring      \<comment> \<open>\<open>fetch\<close> or \<open>response.json()\<close> threw, with the message\<close>
  | NotOk                   \<comment> \<open>\<open>response.ok\<close> is false\<close>
  | Body "json list"        \<comment> \<open>the array \<open>response.json()\<close> resolved to\<close>

datatype custom_source =
    NoHome                  \<comment> \<open>\<open>HOME\<close> is unset or empty\<close>
  | EnsureDirThrew js_error \<comment> \<open>\<open>ensureDir\<close> threw: outside the \<open>try\<close>\<close>
  | NotFound                \<comment> \<open>\<open>readTextFile\<close> threw \<open>Deno.errors.NotFound\<close>\<close>
  | ReadOrParseThrew jstring \<comment> \<open>\<open>readTextFile\<close> or \<open>JSON.parse\<close> threw otherwise\<close>
  | Parsed json             \<comment> \<open>the value \<open>JSON.parse\<close> returned\<close>

fun isArray :: "json \<Rightarrow> bool" where
  "isArray (JArray _) = True"
| "isArray _ = False"

fun elements :: "json \<Rightarrow> json list" where
  "elements (JArray xs) = xs"
| "elements _ = []"

definition empty_list_message :: jstring where
  "empty_list_message = lit ''Word list is empty. Cannot select a word of the day.''"

text \<open>Step 3 of \<open>loadWordList\<close>: merge the lists and remove duplicates.\<close>

definition mergeLists :: "json list \<Rightarrow> json list \<Rightarrow> js_error + json list" where
  "mergeLists defaultWords customWords =
     (let combinedList = new_Set same_value_zero (defaultWords @ customWords)
      in if length combinedList = 0 then Inl (Error empty_list_message)
         else Inr combinedList)"

text \<open>Step 1: the default list, with what is written to standard error.\<close>

fun loadDefault :: "style \<Rightarrow> default_source \<Rightarrow> jstring list \<times> json list" where
  "loadDefault st (Body ws) = ([], ws)"
| "loadDefault st NotOk = ([gray st (lit ''Could not fetch default word list.'')], [])"
| "loadDefault st (FetchThrew m) =
     ([gray st (lit ''Error fetching default word list: '' @ m)], [])"

text \<open>Step 2: the custom list. \<open>Inl\<close> is an exception that leaves \<open>loadWordList\<close>.\<close>

fun loadCustom :: "style \<Rightarrow> custom_source \<Rightarrow> jstring list \<times> (js_error + json list)" where
  "loadCustom st NoHome = ([], Inr [])"
| "loadCustom st (EnsureDirThrew e) = ([], Inl e)"
| "loadCustom st NotFound = ([], Inr [])"
| "loadCustom st (ReadOrParseThrew m) =
     ([yellow st (lit ''Warning: Could not read or parse custom_words.json. '' @ m)], Inr [])"
| "loadCustom st (Parsed v) =
     (if \<not> isArray v
      then ([yellow st (lit ''Warning: Custom words file is not a valid JSON array. Ignoring.'')],
            Inr [])
      else ([], Inr (elements v)))"

text \<open>The whole function: the lines written to standard error, and the merged list or the
  exception.\<close>

definition loadWordList ::
  "style \<Rightarrow> default_source \<Rightarrow> custom_source \<Rightarrow> jstring list \<times> (js_error + json list)" where
  "loadWordList st dsrc csrc =
     (let (err1, defaultWords) = loadDefault st dsrc;
          (err2, custom) = loadCustom st csrc
      in case custom of
           Inl e \<Rightarrow> (err1 @ err2, Inl e)
         | Inr customWords \<Rightarrow> (err1 @ err2, mergeLists defaultWords customWords))"

text \<open>A list of words, as the program's types have it: strings only.\<close>

definition strings :: "jstring list \<Rightarrow> json list" where
  "strings ws = map JString ws"

text \<open>The order the documentation of the merge describes, in its own words: each string
  at the place of its first occurrence, later occurrences dropped.\<close>

fun first_occurrences :: "'a list \<Rightarrow> 'a list" where
  "first_occurrences [] = []"
| "first_occurrences (x # xs) = x # first_occurrences (removeAll x xs)"

section \<open>getWordOfTheDay\<close>

text \<open>
  Dates. A \<open>Date\<close> holds an instant, in milliseconds since the epoch (its time value);
  its local fields and the constructor \<open>new Date(year, month, day)\<close> go through the time
  zone of the host. After ECMAScript: \<open>DayFromYear\<close> and \<open>MakeDay\<close> count days, a
  local time value is \<open>MakeDay * msPerDay + time within the day\<close>, and a zone gives
  the offset from UTC in force at a local time value (\<open>LocalTZA\<close>), so that
  \<open>UTC t = t - zone t\<close>.
\<close>

definition msPerDay :: int where
  "msPerDay = 86400000"

definition InLeapYear :: "int \<Rightarrow> bool" where
  "InLeapYear y = ((y mod 4 = 0 \<and> y mod 100 \<noteq> 0) \<or> y mod 400 = 0)"

definition DayFromYear :: "int \<Rightarrow> int" where
  "DayFromYear y =
     365 * (y - 1970) + (y - 1969) div 4 - (y - 1901) div 100 + (y - 1601) div 400"

text \<open>The days of the year before the first of month \<open>m\<close> (0 is January, 11 is
  December).\<close>

definition daysBeforeMonth :: "int \<Rightarrow> nat \<Rightarrow> int" where
  "daysBeforeMonth y m =
     int ([0, 31, 59, 90, 120, 151, 181, 212, 243, 273, 304, 334] ! (m mod 12))
     + (if 2 \<le> m mod 12 \<and> InLeapYear y then 1 else 0)"

text \<open>\<open>MakeDay\<close> carries a month beyond December into the following years, and takes any
  day number: day 0 of a month is the last day of the month before.\<close>

definition MakeDay :: "int \<Rightarrow> nat \<Rightarrow> int \<Rightarrow> int" where
  "MakeDay y m dt =
     (let ym = y + int (m div 12); mn = m mod 12
      in DayFromYear ym + daysBeforeMonth ym mn + dt - 1)"

type_synonym zone = "int \<Rightarrow> int"

definition UTC :: "zone \<Rightarrow> int \<Rightarrow> int" where
  "UTC z t = t - z t"

text \<open>The clock reading \<open>new Date()\<close>, by its local fields: \<open>month\<close> counts from 0
  and \<open>date\<close> from 1, as \<open>getMonth\<close> and \<open>getDate\<close> do; \<open>msOfDay\<close> is the local time
  of day in milliseconds.\<close>

record local_time =
  fullYear :: int
  month :: nat
  date :: nat
  msOfDay :: int

definition getTime :: "zone \<Rightarrow> local_time \<Rightarrow> int" where
  "getTime z now =
     UTC z (MakeDay (fullYear now) (month now) (int (date now)) * msPerDay + msOfDay now)"

text \<open>\<open>new Date(year, month, day).getTime()\<close>: local midnight of that day. The
  constructor reads a year from 0 to 99 as a year of the twentieth century.\<close>

definition newDate :: "zone \<Rightarrow> int \<Rightarrow> nat \<Rightarrow> int \<Rightarrow> int" where
  "newDate z y m dt =
     (let yr = (if 0 \<le> y \<and> y \<le> 99 then 1900 + y else y)
      in UTC z (MakeDay yr m dt * msPerDay))"

text \<open>The remainder operator \<open>%\<close> takes the sign of the dividend; by zero it is
  \<open>NaN\<close>, here \<open>None\<close>. An index that is no position of the array reads \<open>undefined\<close>,
  here \<open>None\<close>.\<close>

definition js_rem :: "int \<Rightarrow> int \<Rightarrow> int option" where
  "js_rem a b = (if b = 0 then None else Some (sgn a * (\<bar>a\<bar> mod \<bar>b\<bar>)))"

definition at_index :: "'a list \<Rightarrow> int option \<Rightarrow> 'a option" where
  "at_index xs i =
     (case i of
        None \<Rightarrow> None
      | Some k \<Rightarrow> if 0 \<le> k \<and> k < int (length xs) then Some (xs ! nat k) else None)"

text \<open>The first lines of \<open>getWordOfTheDay\<close>. The quotient is taken on integers: both
  time values are whole numbers of milliseconds far below \<open>2^53\<close>, where the division
  of the program and \<open>Math.floor\<close> are exact.\<close>

definition dayOfYear :: "zone \<Rightarrow> local_time \<Rightarrow> int" where
  "dayOfYear z now =
     (let startOfYear = newDate z (fullYear now) 0 0;
          diff = getTime z now - startOfYear;
          oneDay = 1000 * 60 * 60 * 24
      in diff div oneDay)"

definition getWordOfTheDay :: "zone \<Rightarrow> local_time \<Rightarrow> 'a list \<Rightarrow> 'a option" where
  "getWordOfTheDay z now wordList =
     (let index = js_rem (dayOfYear z now) (int (length wordList))
      in at_index wordList index)"

text \<open>The calendar's day of the year, in the words of the documentation: January 1 is
  day 1. A month is a number from 0 to 11.\<close>

definition ordinal_date :: "local_time \<Rightarrow> int" where
  "ordinal_date now = daysBeforeMonth (fullYear now) (month now) + int (date now)"

text \<open>Central European time in 2024, as a zone: one hour ahead of UTC, two hours from
  March 31, 03:00 to October 27, 03:00 local time.\<close>

definition cet_2024 :: zone where
  "cet_2024 t =
     (if MakeDay 2024 2 31 * msPerDay + 3 * 3600000 \<le> t
         \<and> t < MakeDay 2024 9 27 * msPerDay + 3 * 3600000
      then 7200000 else 3600000)"

section \<open>fetchWordData\<close>

record Phonetic =
  p_text :: jstring
  p_audio :: "jstring option"

record Definition =
  d_definition :: jstring
  d_synonyms :: "jstring list"
  d_antonyms :: "jstring list"
  d_example :: "jstring option"

record Meaning =
  partOfSpeech :: jstring
  definitions :: "Definition list"
  m_synonyms :: "jstring list"
  m_antonyms :: "jstring list"

record WordEntry =
  word :: jstring
  phonetic :: jstring
  phonetics :: "Phonetic list"
  meanings :: "Meaning list"
  sourceUrls :: "jstring list"

text \<open>Decimal digits of a number, as a template literal writes it.\<close>

function decimal :: "nat \<Rightarrow> jstring" where
  "decimal n = (if n < 10 then [48 + n] else decimal (n div 10) @ [48 + n mod 10])"
  by pat_completeness auto
termination
  by (relation "measure (\<lambda>n. n)") auto

declare decimal.simps [simp del]

definition decimal_int :: "int \<Rightarrow> jstring" where
  "decimal_int i = (if i < 0 then 45 # decimal (nat (- i)) else decimal (nat i))"

text \<open>A response: its status, and what \<open>response.json()\<close> settles to (the parsed body,
  or the exception of a body that is no JSON). \<open>response.ok\<close> is a status from 200 to
  299. \<open>fetch\<close> itself either rejects or delivers a response.\<close>

record response =
  status :: nat
  json_body :: "js_error + WordEntry list"

definition ok :: "response \<Rightarrow> bool" where
  "ok r = (200 \<le> status r \<and> status r \<le> 299)"

datatype fetch_result = Rejected js_error | Responded response

definition quote :: code_unit where
  "quote = 34"

definition not_found_message :: "jstring \<Rightarrow> jstring" where
  "not_found_message w =
     lit ''Sorry, could not find definitions for '' @ [quote] @ w @ [quote] @ lit ''.''"

definition fetchWordData :: "(jstring \<Rightarrow> fetch_result) \<Rightarrow> jstring \<Rightarrow> js_error + WordEntry list" where
  "fetchWordData fetch w =
     (let API_URL = lit ''https://api.dictionaryapi.dev/api/v2/entries/en/'' @ w
      in case fetch API_URL of
           Rejected e \<Rightarrow> Inl e
         | Responded r \<Rightarrow>
             if \<not> ok r then
               (if status r = 404 then Inl (Error (not_found_message w))
                else Inl (Error (lit ''API request failed with status: '' @ decimal (status r))))
             else json_body r)"

section \<open>displayWord\<close>

definition padEnd :: "jstring \<Rightarrow> int \<Rightarrow> jstring" where
  "padEnd s targetLength = s @ replicate (nat (targetLength - int (length s))) space"

text \<open>\<open>s.repeat(count)\<close> throws a RangeError on a negative count (the message is V8's).\<close>

definition repeat :: "jstring \<Rightarrow> int \<Rightarrow> js_error + jstring" where
  "repeat s count =
     (if count < 0 then Inl (RangeError (lit ''Invalid count value: '' @ decimal_int count))
      else Inr (concat (replicate (nat count) s)))"

text \<open>\<open>text.split(" ")\<close>: the pieces between the spaces, empty ones included.\<close>

fun split_space :: "jstring \<Rightarrow> jstring list" where
  "split_space [] = [[]]"
| "split_space (c # cs) =
     (if c = space then [] # split_space cs
      else (case split_space cs of [] \<Rightarrow> [[c]] | w # ws \<Rightarrow> (c # w) # ws))"

fun join :: "jstring \<Rightarrow> jstring list \<Rightarrow> jstring" where
  "join sep [] = []"
| "join sep [x] = x"
| "join sep (x # y # ys) = x @ sep @ join sep (y # ys)"

definition contentWidth :: "int \<Rightarrow> int" where
  "contentWidth terminalWidth = min 80 (terminalWidth - 4)"

definition pad :: "int \<Rightarrow> jstring \<Rightarrow> jstring" where
  "pad cw s = space # padEnd s (cw - 1)"

text \<open>One turn of the loop of \<open>wrap\<close>, on the pair of \<open>lines\<close> and \<open>currentLine\<close>.\<close>

definition wrap_step ::
  "int \<Rightarrow> jstring \<Rightarrow> int \<Rightarrow> jstring list \<times> jstring \<Rightarrow> jstring \<Rightarrow> jstring list \<times> jstring" where
  "wrap_step cw prefix maxWidth state w =
     (case state of (lines, currentLine) \<Rightarrow>
        if int (length currentLine) + int (length w) + 1 > maxWidth
        then (lines @ [pad cw currentLine], prefix @ w)
        else (lines, currentLine @ (if currentLine = prefix then [] else [space]) @ w))"

definition wrap :: "int \<Rightarrow> jstring \<Rightarrow> jstring \<Rightarrow> jstring list" where
  "wrap cw text prefix =
     (let maxWidth = cw - 2 - int (length prefix);
          (lines, currentLine) =
             foldl (wrap_step cw prefix maxWidth) ([], prefix) (split_space text)
      in lines @ [pad cw currentLine])"

text \<open>The same loop, keeping each line as it is before \<open>pad\<close> is applied to it.\<close>

definition line_step ::
  "jstring \<Rightarrow> int \<Rightarrow> jstring list \<times> jstring \<Rightarrow> jstring \<Rightarrow> jstring list \<times> jstring" where
  "line_step prefix maxWidth state w =
     (case state of (lines, currentLine) \<Rightarrow>
        if int (length currentLine) + int (length w) + 1 > maxWidth
        then (lines @ [currentLine], prefix @ w)
        else (lines, currentLine @ (if currentLine = prefix then [] else [space]) @ w))"

definition wrap_lines :: "int \<Rightarrow> jstring \<Rightarrow> jstring \<Rightarrow> jstring list" where
  "wrap_lines cw text prefix =
     (let maxWidth = cw - 2 - int (length prefix);
          (lines, currentLine) = foldl (line_step prefix maxWidth) ([], prefix) (split_space text)
      in lines @ [currentLine])"

text \<open>The words a line holds after its prefix, empty pieces aside.\<close>

definition words_of :: "jstring \<Rightarrow> jstring list" where
  "words_of s = filter (\<lambda>w. w \<noteq> []) (split_space s)"

definition line_words :: "jstring \<Rightarrow> jstring \<Rightarrow> jstring list" where
  "line_words prefix l = words_of (drop (length prefix) l)"

text \<open>The box-drawing glyphs: one code unit each.\<close>

definition box_h :: code_unit where "box_h = 9472"
definition box_v :: code_unit where "box_v = 9474"
definition box_tl :: code_unit where "box_tl = 9484"
definition box_tr :: code_unit where "box_tr = 9488"
definition box_bl :: code_unit where "box_bl = 9492"
definition box_br :: code_unit where "box_br = 9496"
definition box_l :: code_unit where "box_l = 9500"
definition box_r :: code_unit where "box_r = 9508"

definition print :: "style \<Rightarrow> jstring \<Rightarrow> jstring" where
  "print st s = bold st (gray st [box_v]) @ s @ bold st (gray st [box_v])"

text \<open>\<open>a || b\<close> on strings: the empty string is falsy.\<close>

definition or_else :: "jstring \<Rightarrow> jstring \<Rightarrow> jstring" where
  "or_else a b = (if a \<noteq> [] then a else b)"

definition phoneticText :: "WordEntry \<Rightarrow> jstring" where
  "phoneticText entry =
     or_else (case find (\<lambda>p. p_text p \<noteq> []) (phonetics entry) of
                None \<Rightarrow> [] | Some p \<Rightarrow> p_text p)
       (or_else (phonetic entry) [])"

definition headerLine :: "style \<Rightarrow> int \<Rightarrow> WordEntry \<Rightarrow> jstring" where
  "headerLine st cw entry =
     print st (pad cw (bold st (cyan st (word entry)) @ lit ''  ''
                       @ gray st (italic st (phoneticText entry))))"

text \<open>The body of \<open>meaning.definitions.forEach\<close>, for the definition at \<open>defIndex\<close>.\<close>

definition definitionLines :: "style \<Rightarrow> int \<Rightarrow> nat \<times> Definition \<Rightarrow> jstring list" where
  "definitionLines st cw indexed =
     (case indexed of (defIndex, def) \<Rightarrow>
        map (print st) (wrap cw (decimal (defIndex + 1) @ lit ''. '' @ d_definition def) (lit ''  ''))
        @ (case d_example def of
             None \<Rightarrow> []
           | Some ex \<Rightarrow>
               if ex \<noteq> []
               then map (\<lambda>line. print st (gray st line))
                      (wrap cw (italic st (lit ''e.g. '' @ [quote] @ ex @ [quote])) (lit ''    ''))
               else []))"

text \<open>The body of \<open>entry.meanings.forEach\<close>, for the meaning at \<open>index\<close> of \<open>n\<close>.\<close>

definition meaningLines :: "style \<Rightarrow> int \<Rightarrow> nat \<Rightarrow> nat \<times> Meaning \<Rightarrow> jstring list" where
  "meaningLines st cw n indexed =
     (case indexed of (index, meaning) \<Rightarrow>
        [print st (pad cw (magenta st (partOfSpeech meaning)))]
        @ concat (map (definitionLines st cw) (enumerate 0 (definitions meaning)))
        @ (if int index < int n - 1 then [print st (pad cw [])] else []))"

definition allSynonyms :: "WordEntry \<Rightarrow> jstring list" where
  "allSynonyms entry =
     new_Set (=)
       (concat (map m_synonyms (meanings entry))
        @ concat (map (\<lambda>m. concat (map d_synonyms (definitions m))) (meanings entry)))"

definition thesaurusLines :: "style \<Rightarrow> int \<Rightarrow> jstring \<Rightarrow> WordEntry \<Rightarrow> jstring list" where
  "thesaurusLines st cw separator entry =
     (let synonyms = allSynonyms entry
      in if length synonyms > 0
         then [separator, print st (pad cw (bold st (yellow st (lit ''Thesaurus''))))]
              @ map (print st) (wrap cw (join (lit '', '') synonyms) (lit ''  ''))
         else [])"

text \<open>What a run writes: the lines of standard output and of standard error.\<close>

record console =
  stdout :: "jstring list"
  stderr :: "jstring list"

definition displayWord :: "style \<Rightarrow> int \<Rightarrow> WordEntry list \<Rightarrow> js_error + console" where
  "displayWord st terminalWidth data =
     (case data of
        [] \<Rightarrow> Inr \<lparr> stdout = [], stderr = [bold st (yellow st (lit ''No data to display.''))] \<rparr>
      | entry # _ \<Rightarrow>
          (let cw = contentWidth terminalWidth
           in case repeat [box_h] cw of
                Inl e \<Rightarrow> Inl e
              | Inr line \<Rightarrow>
                  (let topBorder = bold st (gray st ([box_tl] @ line @ [box_tr]));
                       bottomBorder = bold st (gray st ([box_bl] @ line @ [box_br]));
                       separator = bold st (gray st ([box_l] @ line @ [box_r]))
                   in Inr \<lparr> stdout =
                              [topBorder, headerLine st cw entry, separator]
                              @ concat (map (meaningLines st cw (length (meanings entry)))
                                          (enumerate 0 (meanings entry)))
                              @ thesaurusLines st cw separator entry
                              @ [bottomBorder],
                            stderr = [] \<rparr>)))"

section \<open>main\<close>

text \<open>The string a template literal makes of a value (\<open>ToString\<close>).\<close>

fun ToString :: "json \<Rightarrow> jstring" where
  "ToString JNull = lit ''null''"
| "ToString (JBool b) = (if b then lit ''true'' else lit ''false'')"
| "ToString (JNumber n) = n"
| "ToString (JString s) = s"
| "ToString (JArray xs) =
     join (lit '','') (map (\<lambda>x. if x = JNull then [] else ToString x) xs)"
| "ToString (JObject _) = lit ''[object Object]''"

definition template :: "json option \<Rightarrow> jstring" where
  "template v = (case v of None \<Rightarrow> lit ''undefined'' | Some x \<Rightarrow> ToString x)"

text \<open>Everything a run reads from outside.\<close>

record env =
  styling :: style
  defaultSource :: default_source
  customSource :: custom_source
  timeZone :: zone
  clock :: local_time
  fetch :: "jstring \<Rightarrow> fetch_result"
  columns :: int

definition errorLine :: "style \<Rightarrow> js_error \<Rightarrow> jstring" where
  "errorLine st e = bold st (yellow st ([10] @ lit ''Error: '' @ message e @ [10]))"

definition main :: "env \<Rightarrow> console" where
  "main e =
     (let st = styling e;
          (warnings, loaded) = loadWordList st (defaultSource e) (customSource e)
      in case loaded of
           Inl err \<Rightarrow> \<lparr> stdout = [], stderr = warnings @ [errorLine st err] \<rparr>
         | Inr wordList \<Rightarrow>
             (let w = getWordOfTheDay (timeZone e) (clock e) wordList
              in case fetchWordData (fetch e) (template w) of
                   Inl err \<Rightarrow> \<lparr> stdout = [], stderr = warnings @ [errorLine st err] \<rparr>
                 | Inr data \<Rightarrow>
                     (case displayWord st (columns e) data of
                        Inl err \<Rightarrow> \<lparr> stdout = [], stderr = warnings @ [errorLine st err] \<rparr>
                      | Inr out \<Rightarrow> \<lparr> stdout = stdout out, stderr = warnings @ stderr out \<rparr>)))"

section \<open>Notions used to state the properties\<close>

text \<open>What a line of the loop of \<open>wrap\<close> can be: short enough for the test of the loop,
  the bare prefix, or the prefix followed by one word.\<close>

definition line_shape :: "jstring \<Rightarrow> int \<Rightarrow> jstring set \<Rightarrow> jstring \<Rightarrow> bool" where
  "line_shape p mw W l = (int (length l) \<le> mw \<or> l = p \<or> (\<exists>w\<in>W. l = p @ w))"

text \<open>The words held by the state of the loop: those of the finished lines, then those of
  the current one.\<close>

definition held_words :: "jstring \<Rightarrow> jstring list \<times> jstring \<Rightarrow> jstring list" where
  "held_words p state = (case state of (ls, cur) \<Rightarrow> concat (map (line_words p) (ls @ [cur])))"

text \<open>The lines of the box as the documentation describes them: a border is two glyphs
  around \<open>cw\<close> horizontal bars; a content line is the vertical bar, a space, the text,
  spaces to the right of it up to \<open>cw - 1\<close> characters of text, and the vertical bar.\<close>

definition border :: "code_unit \<Rightarrow> code_unit \<Rightarrow> int \<Rightarrow> jstring" where
  "border left right cw = [left] @ replicate (nat cw) box_h @ [right]"

definition content_line :: "int \<Rightarrow> jstring \<Rightarrow> jstring" where
  "content_line cw s =
     [box_v, space] @ s @ replicate (nat (cw - 1 - int (length s))) space @ [box_v]"

text \<open>The texts of the body in the order of the documentation: for each meaning its
  part of speech, then for each definition its numbered, wrapped lines and the wrapped
  lines of its example, and an empty line between meanings; for the thesaurus its label
  and the wrapped list of the synonyms. The whole block: top border, header, separator,
  these texts as content lines, with a separator before the thesaurus, and the bottom
  border.\<close>

definition definition_texts :: "int \<Rightarrow> nat \<times> Definition \<Rightarrow> jstring list" where
  "definition_texts cw indexed =
     (case indexed of (defIndex, def) \<Rightarrow>
        wrap_lines cw (decimal (defIndex + 1) @ lit ''. '' @ d_definition def) (lit ''  '')
        @ (case d_example def of
             None \<Rightarrow> []
           | Some ex \<Rightarrow>
               if ex \<noteq> []
               then wrap_lines cw (lit ''e.g. '' @ [quote] @ ex @ [quote]) (lit ''    '')
               else []))"

definition meaning_texts :: "int \<Rightarrow> nat \<Rightarrow> nat \<times> Meaning \<Rightarrow> jstring list" where
  "meaning_texts cw n indexed =
     (case indexed of (index, meaning) \<Rightarrow>
        [partOfSpeech meaning]
        @ concat (map (definition_texts cw) (enumerate 0 (definitions meaning)))
        @ (if int index < int n - 1 then [[]] else []))"

definition thesaurus_texts :: "int \<Rightarrow> WordEntry \<Rightarrow> jstring list" where
  "thesaurus_texts cw entry =
     lit ''Thesaurus'' # wrap_lines cw (join (lit '', '') (allSynonyms entry)) (lit ''  '')"

definition box_lines :: "int \<Rightarrow> WordEntry \<Rightarrow> jstring list" where
  "box_lines cw entry =
     [border box_tl box_tr cw,
      content_line cw (word entry @ lit ''  '' @ phoneticText entry),
      border box_l box_r cw]
     @ map (content_line cw)
         (concat (map (meaning_texts cw (length (meanings entry))) (enumerate 0 (meanings entry))))
     @ (if allSynonyms entry \<noteq> []
        then border box_l box_r cw # map (content_line cw) (thesaurus_texts cw entry)
        else [])
     @ [border box_bl box_br cw]"

text \<open>A text whose every word, after the prefix, has room in the box; and an entry in
  which every label and every word has.\<close>

definition words_fit :: "int \<Rightarrow> jstring \<Rightarrow> jstring \<Rightarrow> bool" where
  "words_fit cw prefix text =
     (int (length prefix) \<le> cw - 1
      \<and> (\<forall>w\<in>set (split_space text). int (length prefix) + int (length w) \<le> cw - 1))"

definition definition_fits :: "int \<Rightarrow> nat \<times> Definition \<Rightarrow> bool" where
  "definition_fits cw indexed =
     (case indexed of (defIndex, def) \<Rightarrow>
        words_fit cw (lit ''  '') (decimal (defIndex + 1) @ lit ''. '' @ d_definition def)
        \<and> (case d_example def of
             None \<Rightarrow> True
           | Some ex \<Rightarrow>
               ex \<noteq> [] \<longrightarrow> words_fit cw (lit ''    '') (lit ''e.g. '' @ [quote] @ ex @ [quote])))"

definition meaning_fits :: "int \<Rightarrow> Meaning \<Rightarrow> bool" where
  "meaning_fits cw meaning =
     (int (length (partOfSpeech meaning)) \<le> cw - 1
      \<and> (\<forall>d\<in>set (enumerate 0 (definitions meaning)). definition_fits cw d))"

definition entry_fits :: "int \<Rightarrow> WordEntry \<Rightarrow> bool" where
  "entry_fits cw entry =
     (1 \<le> cw
      \<and> int (length (word entry)) + 2 + int (length (phoneticText entry)) \<le> cw - 1
      \<and> (\<forall>m\<in>set (meanings entry). meaning_fits cw m)
      \<and> (allSynonyms entry \<noteq> [] \<longrightarrow>
           9 \<le> cw - 1 \<and> words_fit cw (lit ''  '') (join (lit '', '') (allSynonyms entry))))"

text \<open>Sample inputs: two readings of the clock on July 1, 2024, and three entries.\<close>

definition half_past_midnight :: local_time where
  "half_past_midnight = \<lparr> fullYear = 2024, month = 6, date = 1, msOfDay = 1800000 \<rparr>"

definition noon :: local_time where
  "noon = \<lparr> fullYear = 2024, month = 6, date = 1, msOfDay = 43200000 \<rparr>"

definition short_entry :: WordEntry where
  "short_entry = \<lparr> word = lit ''hi'', phonetic = lit ''/h/'', phonetics = [], meanings = [],
                   sourceUrls = [] \<rparr>"

definition long_entry :: WordEntry where
  "long_entry = \<lparr> word = lit ''supercalifragilistic'', phonetic = [], phonetics = [],
                  meanings = [], sourceUrls = [] \<rparr>"

definition small_entry :: WordEntry where
  "small_entry =
     \<lparr> word = lit ''hi'', phonetic = lit ''/h/'', phonetics = [],
       meanings =
         [\<lparr> partOfSpeech = lit ''noun'',
            definitions = [\<lparr> d_definition = lit ''a b'', d_synonyms = [lit ''yo''],
                             d_antonyms = [], d_example = Some (lit ''x'') \<rparr>],
            m_synonyms = [lit ''yo''], m_antonyms = [] \<rparr>],
       sourceUrls = [] \<rparr>"

section \<open>The merge: size, emptiness and order\<close>

lemma set_has_strings: "set_has same_value_zero (strings s) (JString w) = (w \<in> set s)"
  by (induction s) (auto simp: set_has_def strings_def)

lemma removeAll_filter: "removeAll x (filter P xs) = filter (\<lambda>y. P y \<and> y \<noteq> x) xs"
  by (induction xs) auto

lemma foldl_set_add_strings:
  "foldl (set_add same_value_zero) (strings acc) (strings xs) =
     strings (acc @ first_occurrences (filter (\<lambda>x. x \<notin> set acc) xs))"
proof (induction xs arbitrary: acc)
  case Nil
  then show ?case by (simp add: strings_def)
next
  case (Cons x xs)
  show ?case
  proof (cases "x \<in> set acc")
    case True
    then have "set_add same_value_zero (strings acc) (JString x) = strings acc"
      by (simp add: set_add_def set_has_strings)
    with Cons[of acc] True show ?thesis by (simp add: strings_def)
  next
    case False
    then have "set_add same_value_zero (strings acc) (JString x) = strings (acc @ [x])"
      by (simp add: set_add_def set_has_strings) (simp add: strings_def)
    with Cons[of "acc @ [x]"] False show ?thesis
      by (simp add: strings_def removeAll_filter conj_commute)
  qed
qed

lemma new_Set_strings: "new_Set same_value_zero (strings xs) = strings (first_occurrences xs)"
  using foldl_set_add_strings[of "[]" xs] by (simp add: new_Set_def strings_def)

lemma first_occurrences_filter:
  "first_occurrences (filter P xs) = filter P (first_occurrences xs)"
proof (induction xs rule: first_occurrences.induct)
  case 1
  then show ?case by simp
next
  case (2 x xs)
  have "removeAll x (filter P xs) = filter P (removeAll x xs)"
    by (induction xs) auto
  with 2 show ?case by auto
qed

lemma set_first_occurrences: "set (first_occurrences xs) = set xs"
  by (induction xs rule: first_occurrences.induct) auto

lemma distinct_first_occurrences: "distinct (first_occurrences xs)"
  by (induction xs rule: first_occurrences.induct) (auto simp: set_first_occurrences)

lemma first_occurrences_append:
  "first_occurrences (xs @ ys) =
     first_occurrences xs @ filter (\<lambda>y. y \<notin> set xs) (first_occurrences ys)"
proof (induction xs arbitrary: ys rule: first_occurrences.induct)
  case 1
  then show ?case by simp
next
  case (2 x xs)
  have "first_occurrences ((x # xs) @ ys) =
      x # first_occurrences (removeAll x xs @ removeAll x ys)"
    by simp
  also have "\<dots> = x # first_occurrences (removeAll x xs) @
      filter (\<lambda>y. y \<notin> set (removeAll x xs)) (first_occurrences (removeAll x ys))"
    using 2 by simp
  also have "first_occurrences (removeAll x ys) = filter (\<lambda>y. y \<noteq> x) (first_occurrences ys)"
    by (simp add: removeAll_filter_not_eq first_occurrences_filter) (metis)
  finally show ?case by (auto intro: filter_cong)
qed

lemma length_first_occurrences: "length (first_occurrences xs) = card (set xs)"
  using distinct_card[OF distinct_first_occurrences, of xs] by (simp add: set_first_occurrences)

lemma mergeLists_strings:
  "mergeLists (strings ds) (strings cs) =
     (if ds = [] \<and> cs = [] then Inl (Error empty_list_message)
      else Inr (strings (first_occurrences (ds @ cs))))"
proof -
  have "strings ds @ strings cs = strings (ds @ cs)"
    by (simp add: strings_def)
  moreover have "first_occurrences (ds @ cs) = [] \<longleftrightarrow> ds = [] \<and> cs = []"
    using set_first_occurrences[of "ds @ cs"] by (metis append_is_Nil_conv set_empty)
  ultimately show ?thesis
    by (simp add: mergeLists_def new_Set_strings Let_def) (simp add: strings_def)
qed

text \<open>
  C5. For any two lists of words, the merge returns a pool whose size is the number of
  distinct strings across both lists (strings compared exactly, case included); it
  fails, with the error "Word list is empty...", exactly when the combined deduplicated
  list has no element, and so on two empty lists.
\<close>

theorem mergeLists_size_and_empty:
  "(case mergeLists (strings ds) (strings cs) of
      Inl e \<Rightarrow> e = Error empty_list_message \<and> ds = [] \<and> cs = []
    | Inr pool \<Rightarrow> length pool = card (set ds \<union> set cs) \<and> pool \<noteq> [])
   \<and> mergeLists [] [] = Inl (Error empty_list_message)
   \<and> ((\<exists>e. mergeLists d c = Inl e) \<longleftrightarrow> new_Set same_value_zero (d @ c) = [])"
proof -
  have "length (strings (first_occurrences (ds @ cs))) = card (set ds \<union> set cs)"
    by (simp add: strings_def length_first_occurrences)
  moreover have "ds \<noteq> [] \<or> cs \<noteq> [] \<Longrightarrow> strings (first_occurrences (ds @ cs)) \<noteq> []"
    using set_first_occurrences[of "ds @ cs"]
    by (metis append_is_Nil_conv set_empty strings_def map_is_Nil_conv)
  moreover have "mergeLists [] [] = Inl (Error empty_list_message)"
    by (simp add: mergeLists_def new_Set_def)
  moreover have "(\<exists>e. mergeLists d c = Inl e) \<longleftrightarrow> new_Set same_value_zero (d @ c) = []"
    by (simp add: mergeLists_def Let_def)
  ultimately show ?thesis
    by (auto simp: mergeLists_strings)
qed

theorem mergeLists_size_and_empty_witness:
  "(case mergeLists (strings [lit ''ab'', lit ''cd'']) (strings [lit ''cd'', lit ''Ab'']) of
      Inl e \<Rightarrow> False
    | Inr pool \<Rightarrow> length pool = 3)"
proof -
  have "card (set [lit ''ab'', lit ''cd''] \<union> set [lit ''cd'', lit ''Ab'']) = 3"
    by (simp add: lit_def card_insert_if)
  then show ?thesis
    using mergeLists_size_and_empty [of "[lit ''ab'', lit ''cd'']" "[lit ''cd'', lit ''Ab'']" "[]" "[]"]
    by (auto split: sum.splits)
qed

text \<open>
  C10. The merged pool is in first-occurrence order: the default words in their
  original order, each at the place of its first occurrence, followed by the custom
  words that are not default words, again in first-occurrence order.
\<close>

theorem mergeLists_order:
  "ds \<noteq> [] \<or> cs \<noteq> [] \<Longrightarrow>
   mergeLists (strings ds) (strings cs) =
     Inr (strings (first_occurrences ds @ filter (\<lambda>w. w \<notin> set ds) (first_occurrences cs)))"
  by (auto simp: mergeLists_strings first_occurrences_append)

theorem mergeLists_order_witness:
  "mergeLists (strings [lit ''b'', lit ''a'', lit ''b'']) (strings [lit ''c'', lit ''a'', lit ''c'']) =
     Inr (strings [lit ''b'', lit ''a'', lit ''c''])"
  using mergeLists_order [of "[lit ''b'', lit ''a'', lit ''b'']" "[lit ''c'', lit ''a'', lit ''c'']"]
  by (simp add: lit_def)

lemma foldl_set_add_not_Nil: "s \<noteq> [] \<Longrightarrow> foldl (set_add same) s xs \<noteq> []"
  by (induction xs arbitrary: s) (auto simp: set_add_def)

lemma new_Set_Nil_iff: "new_Set same xs = [] \<longleftrightarrow> xs = []"
proof (cases xs)
  case Nil
  then show ?thesis by (simp add: new_Set_def)
next
  case (Cons x ys)
  have "set_add same [] x = [x]" by (simp add: set_add_def set_has_def)
  then show ?thesis
    using Cons foldl_set_add_not_Nil[of "[x]" same ys] by (simp add: new_Set_def)
qed

text \<open>
  C8. A custom word file that cannot be read or parsed, or whose content is no JSON array
  (for one, the object \<open>{"not": "an array"}\<close>), is treated as an empty custom list: one
  warning is written, and the pool is the default list, deduplicated; the run fails only
  when the default list is empty too. A JSON array is taken without a warning whatever
  its elements: they are merged after the default words.
\<close>

theorem loadWordList_custom_malformed:
  "(\<not> isArray v \<longrightarrow>
      loadWordList st (Body (strings ds)) (Parsed v) =
        ([yellow st (lit ''Warning: Custom words file is not a valid JSON array. Ignoring.'')],
         if ds = [] then Inl (Error empty_list_message)
         else Inr (strings (first_occurrences ds))))
   \<and> loadWordList st (Body (strings ds)) (ReadOrParseThrew m) =
        ([yellow st (lit ''Warning: Could not read or parse custom_words.json. '' @ m)],
         if ds = [] then Inl (Error empty_list_message)
         else Inr (strings (first_occurrences ds)))
   \<and> loadWordList st (Body (strings ds)) (Parsed (JArray xs)) =
        ([], if ds = [] \<and> xs = [] then Inl (Error empty_list_message)
             else Inr (new_Set same_value_zero (strings ds @ xs)))"
proof -
  have "mergeLists (strings ds) [] =
          (if ds = [] then Inl (Error empty_list_message) else Inr (strings (first_occurrences ds)))"
    using mergeLists_strings[of ds "[]"] by (simp add: strings_def)
  moreover have "mergeLists (strings ds) xs =
          (if ds = [] \<and> xs = [] then Inl (Error empty_list_message)
           else Inr (new_Set same_value_zero (strings ds @ xs)))"
    by (simp add: mergeLists_def Let_def new_Set_Nil_iff strings_def)
  ultimately show ?thesis
    by (simp add: loadWordList_def)
qed

theorem loadWordList_custom_malformed_witness:
  "loadWordList plain (Body (strings [lit ''alpha'', lit ''beta'', lit ''alpha'']))
     (Parsed (JObject [(lit ''not'', JString (lit ''an array''))])) =
   ([lit ''Warning: Custom words file is not a valid JSON array. Ignoring.''],
    Inr (strings [lit ''alpha'', lit ''beta'']))
   \<and> loadWordList plain (Body (strings [lit ''alpha'', lit ''beta'', lit ''alpha'']))
     (ReadOrParseThrew (lit ''Unexpected token'')) =
   ([lit ''Warning: Could not read or parse custom_words.json. Unexpected token''],
    Inr (strings [lit ''alpha'', lit ''beta'']))"
proof -
  have "\<not> isArray (JObject [(lit ''not'', JString (lit ''an array''))])" by simp
  with loadWordList_custom_malformed[of "JObject [(lit ''not'', JString (lit ''an array''))]" plain
      "[lit ''alpha'', lit ''beta'', lit ''alpha'']" "lit ''Unexpected token''" "[]"]
  show ?thesis by (simp add: lit_def plain_def)
qed

text \<open>The specification states more than holds: an array of numbers is not a sequence of
  strings, yet it is merged without a warning; and with no default word the object
  \<open>{"not": "an array"}\<close> ends the run with the error of the empty list.\<close>

theorem loadWordList_custom_counterexample:
  "loadWordList plain (Body (strings [lit ''alpha''])) (Parsed (JArray [JNumber (lit ''7'')])) =
     ([], Inr [JString (lit ''alpha''), JNumber (lit ''7'')])
   \<and> loadWordList plain (Body []) (Parsed (JObject [(lit ''not'', JString (lit ''an array''))])) =
     ([lit ''Warning: Custom words file is not a valid JSON array. Ignoring.''],
      Inl (Error empty_list_message))"
  by (simp add: loadWordList_def mergeLists_def new_Set_def set_add_def set_has_def strings_def
      lit_def plain_def)

section \<open>wrap: the lines and their words\<close>


lemma split_space_not_Nil: "split_space s \<noteq> []"
  by (induction s) (auto split: list.splits)

lemma split_space_append:
  "split_space (a @ space # b) = split_space a @ split_space b"
proof (induction a)
  case Nil
  then show ?case by simp
next
  case (Cons c a)
  obtain w ws where "split_space a = w # ws"
    using split_space_not_Nil[of a] by (cases "split_space a") auto
  with Cons show ?case by simp
qed

lemma split_space_no_space: "w \<in> set (split_space s) \<Longrightarrow> space \<notin> set w"
proof (induction s arbitrary: w)
  case Nil
  then show ?case by simp
next
  case (Cons c s)
  then show ?case
    by (cases "split_space s") (auto split: if_splits)
qed

lemma split_space_word: "space \<notin> set w \<Longrightarrow> split_space w = [w]"
  by (induction w) auto

lemma words_of_append:
  "words_of (a @ space # b) = words_of a @ words_of b"
  by (simp add: words_of_def split_space_append)

lemma words_of_word: "space \<notin> set w \<Longrightarrow> words_of w = (if w = [] then [] else [w])"
  by (simp add: words_of_def split_space_word)

lemma wrap_step_line_step:
  "foldl (wrap_step cw p mw) (map (pad cw) ls, cur) ws =
     (case foldl (line_step p mw) (ls, cur) ws of (ls', c) \<Rightarrow> (map (pad cw) ls', c))"
proof (induction ws arbitrary: ls cur)
  case Nil
  then show ?case by simp
next
  case (Cons w ws)
  show ?case
  proof (cases "int (length cur) + int (length w) + 1 > mw")
    case True
    then show ?thesis
      using Cons[of "ls @ [cur]" "p @ w"] by (simp add: wrap_step_def line_step_def)
  next
    case False
    then show ?thesis
      using Cons[of ls "cur @ (if cur = p then [] else [space]) @ w"]
      by (simp add: wrap_step_def line_step_def)
  qed
qed

lemma wrap_map_pad: "wrap cw text prefix = map (pad cw) (wrap_lines cw text prefix)"
  using wrap_step_line_step[of cw prefix "cw - 2 - int (length prefix)" "[]" prefix "split_space text"]
  by (simp add: wrap_def wrap_lines_def Let_def split: prod.splits)

lemma line_step_shape:
  assumes "\<forall>l\<in>set ls. line_shape p mw W l" "line_shape p mw W cur" "set ws \<subseteq> W"
    and "foldl (line_step p mw) (ls, cur) ws = (ls', cur')"
  shows "(\<forall>l\<in>set ls'. line_shape p mw W l) \<and> line_shape p mw W cur'"
  using assms
proof (induction ws arbitrary: ls cur)
  case Nil
  then show ?case by simp
next
  case (Cons w ws)
  show ?case
  proof (cases "int (length cur) + int (length w) + 1 > mw")
    case True
    have "line_shape p mw W (p @ w)"
      using Cons.prems(3) by (auto simp: line_shape_def)
    with Cons.IH[of "ls @ [cur]" "p @ w"] Cons.prems True show ?thesis
      by (simp add: line_step_def)
  next
    case False
    let ?c = "cur @ (if cur = p then [] else [space]) @ w"
    have "line_shape p mw W ?c"
      using False by (auto simp: line_shape_def)
    with Cons.IH[of ls ?c] Cons.prems False show ?thesis
      by (simp add: line_step_def)
  qed
qed

lemma wrap_lines_shape:
  "l \<in> set (wrap_lines cw text prefix) \<Longrightarrow>
     line_shape prefix (cw - 2 - int (length prefix)) (set (split_space text)) l"
proof -
  assume l: "l \<in> set (wrap_lines cw text prefix)"
  let ?mw = "cw - 2 - int (length prefix)"
  obtain ls cur where f: "foldl (line_step prefix ?mw) ([], prefix) (split_space text) = (ls, cur)"
    by (cases "foldl (line_step prefix ?mw) ([], prefix) (split_space text)")
  have "(\<forall>l\<in>set ls. line_shape prefix ?mw (set (split_space text)) l)
        \<and> line_shape prefix ?mw (set (split_space text)) cur"
    by (rule line_step_shape[OF _ _ _ f]) (auto simp: line_shape_def)
  with l f show ?thesis by (auto simp: wrap_lines_def Let_def)
qed


lemma line_step_break:
  "int (length cur) + int (length w) + 1 > mw \<Longrightarrow>
     line_step p mw (ls, cur) w = (ls @ [cur], p @ w)"
  by (simp add: line_step_def)

lemma line_step_keep:
  "\<not> int (length cur) + int (length w) + 1 > mw \<Longrightarrow>
     line_step p mw (ls, cur) w = (ls, cur @ (if cur = p then [] else [space]) @ w)"
  by (simp add: line_step_def)

lemma line_words_prefix_word:
  "space \<notin> set w \<Longrightarrow> line_words p (p @ w) = (if w = [] then [] else [w])"
  by (simp add: line_words_def words_of_word)

lemma line_words_extend:
  assumes "space \<notin> set w"
  shows "line_words p ((p @ c) @ (if p @ c = p then [] else [space]) @ w) =
           line_words p (p @ c) @ (if w = [] then [] else [w])"
proof (cases "c = []")
  case True
  then show ?thesis
    using assms words_of_word[of w] by (simp add: line_words_def) (simp add: words_of_def)
next
  case False
  then show ?thesis
    using assms words_of_append[of c w] by (simp add: line_words_def words_of_word)
qed

lemma line_step_words:
  assumes "\<forall>w\<in>set ws. space \<notin> set w"
    and "foldl (line_step p mw) (ls, p @ c) ws = (ls', cur')"
  shows "(\<exists>c'. cur' = p @ c') \<and>
         held_words p (ls', cur') = held_words p (ls, p @ c) @ filter (\<lambda>w. w \<noteq> []) ws"
  using assms
proof (induction ws arbitrary: ls c)
  case Nil
  then show ?case by auto
next
  case (Cons w ws)
  have w: "space \<notin> set w" using Cons.prems(1) by simp
  show ?case
  proof (cases "int (length (p @ c)) + int (length w) + 1 > mw")
    case True
    then have "foldl (line_step p mw) (ls @ [p @ c], p @ w) ws = (ls', cur')"
      using Cons.prems(2) by (simp add: line_step_break)
    from Cons.IH[OF _ this] Cons.prems(1)
    have "(\<exists>c'. cur' = p @ c') \<and>
          held_words p (ls', cur') = held_words p (ls @ [p @ c], p @ w) @ filter (\<lambda>w. w \<noteq> []) ws"
      by simp
    moreover have "held_words p (ls @ [p @ c], p @ w) = held_words p (ls, p @ c) @ (if w = [] then [] else [w])"
      using line_words_prefix_word[OF w, of p] by (simp add: held_words_def)
    ultimately show ?thesis by auto
  next
    case False
    let ?n = "c @ (if p @ c = p then [] else [space]) @ w"
    from False have "foldl (line_step p mw) (ls, p @ ?n) ws = (ls', cur')"
      using Cons.prems(2) by (simp add: line_step_keep)
    from Cons.IH[OF _ this] Cons.prems(1)
    have "(\<exists>c'. cur' = p @ c') \<and>
          held_words p (ls', cur') = held_words p (ls, p @ ?n) @ filter (\<lambda>w. w \<noteq> []) ws"
      by simp
    moreover have "held_words p (ls, p @ ?n) = held_words p (ls, p @ c) @ (if w = [] then [] else [w])"
      using line_words_extend[OF w, of p c] by (simp add: held_words_def)
    ultimately show ?thesis by auto
  qed
qed

lemma wrap_lines_words:
  "concat (map (line_words prefix) (wrap_lines cw text prefix)) = words_of text"
proof -
  let ?mw = "cw - 2 - int (length prefix)"
  obtain ls cur where f: "foldl (line_step prefix ?mw) ([], prefix @ []) (split_space text) = (ls, cur)"
    by (cases "foldl (line_step prefix ?mw) ([], prefix @ []) (split_space text)")
  have "held_words prefix (ls, cur) = held_words prefix ([], prefix @ []) @ words_of text"
    using line_step_words[OF _ f] split_space_no_space[of _ "text"] by (auto simp: words_of_def)
  moreover have "held_words prefix ([], prefix @ []) = []"
    by (simp add: held_words_def line_words_def words_of_def)
  ultimately show ?thesis
    using f by (simp add: wrap_lines_def Let_def held_words_def)
qed

lemma line_step_prefix:
  assumes "\<forall>l\<in>set ls. take (length p) l = p" "take (length p) cur = p"
    and "foldl (line_step p mw) (ls, cur) ws = (ls', cur')"
  shows "(\<forall>l\<in>set ls'. take (length p) l = p) \<and> take (length p) cur' = p"
  using assms
proof (induction ws arbitrary: ls cur)
  case Nil
  then show ?case by simp
next
  case (Cons w ws)
  show ?case
  proof (cases "int (length cur) + int (length w) + 1 > mw")
    case True
    with Cons.IH[of "ls @ [cur]" "p @ w"] Cons.prems show ?thesis
      by (simp add: line_step_def)
  next
    case False
    let ?c = "cur @ (if cur = p then [] else [space]) @ w"
    have "length p \<le> length cur"
      using Cons.prems(2) by (metis length_take min.absorb_iff2 nat_le_linear take_all)
    then have "take (length p) ?c = p"
      using Cons.prems(2) by simp
    with Cons.IH[of ls ?c] Cons.prems False show ?thesis
      by (simp add: line_step_def)
  qed
qed

lemma wrap_lines_prefix:
  "l \<in> set (wrap_lines cw text prefix) \<Longrightarrow> take (length prefix) l = prefix"
proof -
  assume l: "l \<in> set (wrap_lines cw text prefix)"
  let ?mw = "cw - 2 - int (length prefix)"
  obtain ls cur where f: "foldl (line_step prefix ?mw) ([], prefix) (split_space text) = (ls, cur)"
    by (cases "foldl (line_step prefix ?mw) ([], prefix) (split_space text)")
  have "(\<forall>l\<in>set ls. take (length prefix) l = prefix) \<and> take (length prefix) cur = prefix"
    by (rule line_step_prefix[OF _ _ f]) auto
  with l f show ?thesis by (auto simp: wrap_lines_def Let_def)
qed

text \<open>
  C2. For every text and every prefix no longer than \<open>contentWidth - 2\<close>, each line that
  \<open>wrap\<close> produces (prefix plus content, before padding) starts with the prefix and has
  at most \<open>contentWidth - 2\<close> characters, except a line made of the prefix and one single
  word longer than the available width \<open>contentWidth - 2 - prefix.length\<close>, which
  overflows. Lines are broken at spaces only: the words of the lines, in order, are the
  words of the text.
\<close>

theorem wrap_line_bound:
  assumes "int (length prefix) \<le> cw - 2"
  shows "wrap cw text prefix = map (pad cw) (wrap_lines cw text prefix)
       \<and> (\<forall>l\<in>set (wrap_lines cw text prefix).
             take (length prefix) l = prefix
           \<and> (int (length l) \<le> cw - 2
              \<or> (\<exists>w\<in>set (split_space text).
                    l = prefix @ w \<and> cw - 2 - int (length prefix) < int (length w))))
       \<and> concat (map (line_words prefix) (wrap_lines cw text prefix)) = words_of text"
proof -
  have "int (length l) \<le> cw - 2
        \<or> (\<exists>w\<in>set (split_space text). l = prefix @ w \<and> cw - 2 - int (length prefix) < int (length w))"
    if "l \<in> set (wrap_lines cw text prefix)" for l
  proof -
    from wrap_lines_shape[OF that]
    consider "int (length l) \<le> cw - 2 - int (length prefix)" | "l = prefix"
      | w where "w \<in> set (split_space text)" "l = prefix @ w"
      by (auto simp: line_shape_def)
    then show ?thesis
    proof cases
      case 1
      then show ?thesis by simp
    next
      case 2
      then show ?thesis using assms by simp
    next
      case 3
      then show ?thesis by (cases "int (length l) \<le> cw - 2") auto
    qed
  qed
  then show ?thesis
    using wrap_map_pad wrap_lines_prefix wrap_lines_words by blast
qed

theorem wrap_line_bound_witness:
  "wrap 10 (lit ''ab cdefghijk l'') (lit ''  '') =
     map (pad 10) [lit ''  ab'', lit ''  cdefghijk'', lit ''  l'']
   \<and> concat (map (line_words (lit ''  '')) [lit ''  ab'', lit ''  cdefghijk'', lit ''  l'']) =
     words_of (lit ''ab cdefghijk l'')"
proof -
  have h: "int (length (lit ''  '')) \<le> 10 - 2"
    by (simp add: lit_def)
  have e: "wrap_lines 10 (lit ''ab cdefghijk l'') (lit ''  '') =
             [lit ''  ab'', lit ''  cdefghijk'', lit ''  l'']"
    by (simp add: wrap_lines_def line_step_def lit_def space_def)
  from wrap_line_bound[OF h, of "lit ''ab cdefghijk l''"] e show ?thesis
    by simp
qed

text \<open>The specification states more than holds: in a terminal of 7 columns the content width is
  3, and the first line of a wrapped definition is the bare prefix, two characters where
  one is allowed, holding no word at all. And at content width 10 the text \<open>1. ab\<close>, seven
  characters with its prefix, is broken in two: the lines are not filled up to
  \<open>contentWidth - 2\<close>.\<close>

theorem wrap_line_bound_counterexample:
  "\<not> (\<forall>l\<in>set (wrap_lines (contentWidth 7) (lit ''1. a'') (lit ''  '')).
         int (length l) \<le> contentWidth 7 - 2
       \<or> (\<exists>w\<in>set (split_space (lit ''1. a'')).
             l = lit ''  '' @ w \<and> contentWidth 7 - 2 - int (length (lit ''  '')) < int (length w)))
   \<and> wrap_lines 10 (lit ''1. ab'') (lit ''  '') = [lit ''  1.'', lit ''  ab'']
   \<and> int (length (lit ''  1. ab'')) \<le> 10 - 2"
proof -
  have "wrap_lines (contentWidth 7) (lit ''1. a'') (lit ''  '') = [lit ''  '', lit ''  1.'', lit ''  a'']"
    by (simp add: wrap_lines_def line_step_def lit_def space_def contentWidth_def)
  moreover have "split_space (lit ''1. a'') = [lit ''1.'', lit ''a'']"
    by (simp add: lit_def space_def)
  moreover have "wrap_lines 10 (lit ''1. ab'') (lit ''  '') = [lit ''  1.'', lit ''  ab'']"
    by (simp add: wrap_lines_def line_step_def lit_def space_def)
  ultimately show ?thesis
    by (simp add: lit_def contentWidth_def)
qed

text \<open>What does hold for a short text: one that does not start with a space and passes
  the test of the loop at its full length comes out as one line.\<close>

lemma join_Cons: "join sep (w # ws) = w @ concat (map (\<lambda>v. sep @ v) ws)"
  by (induction ws arbitrary: w) auto

lemma join_split_space: "join [space] (split_space t) = t"
proof (induction t)
  case Nil
  then show ?case by simp
next
  case (Cons c cs)
  obtain w ws where s: "split_space cs = w # ws"
    using split_space_not_Nil[of cs] by (cases "split_space cs") auto
  with Cons show ?case by (simp add: join_Cons)
qed

lemma line_step_run:
  assumes "c \<noteq> []"
    and "int (length (p @ c @ concat (map (\<lambda>v. [space] @ v) ws))) \<le> mw"
  shows "foldl (line_step p mw) (ls, p @ c) ws = (ls, p @ c @ concat (map (\<lambda>v. [space] @ v) ws))"
  using assms
proof (induction ws arbitrary: c)
  case Nil
  then show ?case by simp
next
  case (Cons w ws)
  have "\<not> int (length (p @ c)) + int (length w) + 1 > mw"
    using Cons.prems(2) by simp
  then have "line_step p mw (ls, p @ c) w = (ls, p @ (c @ [space] @ w))"
    using Cons.prems(1) by (simp add: line_step_keep)
  moreover have "foldl (line_step p mw) (ls, p @ (c @ [space] @ w)) ws =
                   (ls, p @ (c @ [space] @ w) @ concat (map (\<lambda>v. [space] @ v) ws))"
    using Cons.prems(2) by (intro Cons.IH) simp_all
  ultimately show ?case by simp
qed

lemma split_space_first_word:
  "t \<noteq> [] \<Longrightarrow> hd t \<noteq> space \<Longrightarrow> \<exists>w ws. split_space t = w # ws \<and> w \<noteq> []"
  by (cases t) (auto split: list.splits)

lemma wrap_lines_single:
  assumes "text = [] \<or> hd text \<noteq> space"
    and "2 * int (length prefix) + int (length text) + 1 \<le> cw - 2"
  shows "wrap_lines cw text prefix = [prefix @ text]"
proof (cases "text = []")
  case True
  then show ?thesis
    using assms(2) by (simp add: wrap_lines_def line_step_def)
next
  case False
  let ?mw = "cw - 2 - int (length prefix)"
  from False assms(1) obtain w ws where s: "split_space text = w # ws" and w: "w \<noteq> []"
    using split_space_first_word by blast
  have t: "text = w @ concat (map (\<lambda>v. [space] @ v) ws)"
    using join_split_space[of "text"] s by (simp add: join_Cons)
  have len: "length text = length w + length (concat (map (\<lambda>v. [space] @ v) ws))"
    using arg_cong[OF t, of length] by simp
  then have "\<not> int (length prefix) + int (length w) + 1 > ?mw"
    using assms(2) by simp
  then have "line_step prefix ?mw ([], prefix) w = ([], prefix @ w)"
    by (simp add: line_step_keep)
  moreover have "foldl (line_step prefix ?mw) ([], prefix @ w) ws =
                   ([], prefix @ w @ concat (map (\<lambda>v. [space] @ v) ws))"
  proof (rule line_step_run[OF w])
    have "int (length (prefix @ w @ concat (map (\<lambda>v. [space] @ v) ws))) = int (length prefix) + int (length text)"
      using len by simp
    then show "int (length (prefix @ w @ concat (map (\<lambda>v. [space] @ v) ws))) \<le> ?mw"
      using assms(2) by simp
  qed
  ultimately show ?thesis
    using s t by (simp add: wrap_lines_def)
qed

lemma wrap_single_line:
  assumes "text = [] \<or> hd text \<noteq> space"
    and "2 * int (length prefix) + int (length text) + 1 \<le> cw - 2"
  shows "wrap cw text prefix = [pad cw (prefix @ text)]"
  using wrap_lines_single[OF assms] by (simp add: wrap_map_pad)

text \<open>
  C9. A text that fits in one line is to come out of \<open>wrap\<close> as one line, the prefix
  followed by the text, padded. Evaluated at content width 80 on a numbered definition
  that fills, with its prefix, exactly the 78 characters a line may have: it comes out as
  two lines. At content width 10 the text \<open>1. ab\<close>, seven characters with its prefix
  where eight are allowed, comes out as two lines; and the single word \<open>abcdefgh\<close> with
  the default empty prefix, exactly eight characters, comes out as an empty line followed
  by the word.
\<close>

theorem wrap_fitting_text_two_lines:
  "int (length (lit ''  '' @ lit ''1. aaaaaaaaa aaaaaaaaa aaaaaaaaa aaaaaaaaa aaaaaaaaa aaaaaaaaa aaaaaaaaa abc'')) \<le> 80 - 2
   \<and> wrap 80 (lit ''1. aaaaaaaaa aaaaaaaaa aaaaaaaaa aaaaaaaaa aaaaaaaaa aaaaaaaaa aaaaaaaaa abc'') (lit ''  '') =
       [pad 80 (lit ''  1. aaaaaaaaa aaaaaaaaa aaaaaaaaa aaaaaaaaa aaaaaaaaa aaaaaaaaa aaaaaaaaa''), pad 80 (lit ''  abc'')]
   \<and> int (length (lit ''  1. ab'')) \<le> 10 - 2
   \<and> wrap 10 (lit ''1. ab'') (lit ''  '') = [pad 10 (lit ''  1.''), pad 10 (lit ''  ab'')]
   \<and> int (length (lit ''abcdefgh'')) \<le> 10 - 2
   \<and> wrap 10 (lit ''abcdefgh'') [] = [pad 10 [], pad 10 (lit ''abcdefgh'')]"
  by (simp add: wrap_def wrap_step_def lit_def space_def)

section \<open>The day of the year\<close>


lemma daysBeforeMonth_January [simp]: "daysBeforeMonth y 0 = 0"
  by (simp add: daysBeforeMonth_def)

lemma ordinal_date_nonneg: "0 \<le> ordinal_date now"
  by (simp add: ordinal_date_def daysBeforeMonth_def)

lemma MakeDay_in_year:
  "m < 12 \<Longrightarrow> MakeDay y m dt = DayFromYear y + daysBeforeMonth y m + dt - 1"
  by (simp add: MakeDay_def)

lemma MakeDay_2024:
  "m < 12 \<Longrightarrow> MakeDay 2024 m dt = 19723 + daysBeforeMonth 2024 m + dt - 1"
  by (simp add: MakeDay_in_year DayFromYear_def)

lemma daysBeforeMonth_2024:
  "daysBeforeMonth 2024 0 = 0" "daysBeforeMonth 2024 2 = 60"
  "daysBeforeMonth 2024 6 = 182" "daysBeforeMonth 2024 9 = 274"
  by (simp_all add: daysBeforeMonth_def InLeapYear_def)

lemma dayOfYear_fixed_offset:
  assumes "\<forall>t. z t = off" "0 \<le> msOfDay now" "msOfDay now < msPerDay" "month now < 12"
    and "fullYear now < 0 \<or> 99 < fullYear now"
  shows "dayOfYear z now = ordinal_date now"
proof -
  let ?y = "fullYear now"
  have "getTime z now - newDate z ?y 0 0 = ordinal_date now * msPerDay + msOfDay now"
    using assms(1,4,5)
    by (auto simp: getTime_def newDate_def UTC_def MakeDay_in_year ordinal_date_def algebra_simps)
  moreover have "(ordinal_date now * msPerDay + msOfDay now) div msPerDay = ordinal_date now"
    using assms(2,3) by (simp add: msPerDay_def)
  ultimately show ?thesis
    by (simp add: dayOfYear_def Let_def msPerDay_def)
qed

lemma getWordOfTheDay_fixed_offset:
  assumes "\<forall>t. z t = off" "0 \<le> msOfDay now" "msOfDay now < msPerDay" "month now < 12"
    and "fullYear now < 0 \<or> 99 < fullYear now" and "wordList \<noteq> []"
  shows "getWordOfTheDay z now wordList =
           Some (wordList ! (nat (ordinal_date now) mod length wordList))"
proof -
  let ?d = "ordinal_date now" and ?n = "int (length wordList)"
  have n: "0 < ?n" using assms(6) by simp
  have d: "0 \<le> ?d" by (rule ordinal_date_nonneg)
  have "js_rem ?d ?n = Some (?d mod ?n)"
    using n d by (cases "?d = 0") (simp_all add: js_rem_def)
  moreover have "0 \<le> ?d mod ?n" "?d mod ?n < ?n"
    using n by simp_all
  moreover have "nat (?d mod ?n) = nat ?d mod length wordList"
    using d n by (simp add: nat_mod_distrib)
  ultimately show ?thesis
    using dayOfYear_fixed_offset[OF assms(1-5)]
    by (simp add: getWordOfTheDay_def Let_def at_index_def)
qed

lemma january_first: "ordinal_date \<lparr> fullYear = y, month = 0, date = 1, msOfDay = t \<rparr> = 1"
  by (simp add: ordinal_date_def)

lemma dayOfYear_half_past_midnight: "dayOfYear cet_2024 half_past_midnight = 182"
  by (simp add: dayOfYear_def getTime_def newDate_def UTC_def MakeDay_2024 daysBeforeMonth_2024
      cet_2024_def msPerDay_def half_past_midnight_def)

lemma dayOfYear_noon: "dayOfYear cet_2024 noon = 183"
  by (simp add: dayOfYear_def getTime_def newDate_def UTC_def MakeDay_2024 daysBeforeMonth_2024
      cet_2024_def msPerDay_def noon_def)

text \<open>
  C3. The word of the day is to be the element at index \<open>dayOfYear mod poolSize\<close>, where
  January 1 is day 1. Evaluated in Central European time on July 1, 2024, at half past
  midnight: the day of the year is 183, which selects \<open>beta\<close> from the pool of \<open>alpha\<close>
  and \<open>beta\<close>; the function computes day 182 and returns \<open>alpha\<close>.
\<close>

theorem getWordOfTheDay_summer_time_day:
  "ordinal_date half_past_midnight = 183
   \<and> dayOfYear cet_2024 half_past_midnight = 182
   \<and> getWordOfTheDay cet_2024 half_past_midnight [lit ''alpha'', lit ''beta''] = Some (lit ''alpha'')"
  by (simp add: getWordOfTheDay_def dayOfYear_half_past_midnight js_rem_def at_index_def)
     (simp add: ordinal_date_def daysBeforeMonth_2024 half_past_midnight_def)

text \<open>
  C4. On one calendar day the selection is to be the same at every time of day.
  Evaluated in Central European time on July 1, 2024: at half past midnight the word is
  \<open>alpha\<close>, at noon of the same day it is \<open>beta\<close>.
\<close>

theorem getWordOfTheDay_time_of_day:
  "fullYear half_past_midnight = fullYear noon
   \<and> month half_past_midnight = month noon
   \<and> date half_past_midnight = date noon
   \<and> getWordOfTheDay cet_2024 half_past_midnight [lit ''alpha'', lit ''beta''] = Some (lit ''alpha'')
   \<and> getWordOfTheDay cet_2024 noon [lit ''alpha'', lit ''beta''] = Some (lit ''beta'')"
  by (simp add: getWordOfTheDay_def dayOfYear_half_past_midnight dayOfYear_noon js_rem_def
      at_index_def)
     (simp add: half_past_midnight_def noon_def)

section \<open>Failures of the dictionary lookup\<close>

lemma main_fetch_failure:
  assumes "loadWordList (styling e) (defaultSource e) (customSource e) = (warnings, Inr wordList)"
    and "fetchWordData (fetch e) (template (getWordOfTheDay (timeZone e) (clock e) wordList)) = Inl err"
  shows "main e = \<lparr> stdout = [], stderr = warnings @ [errorLine (styling e) err] \<rparr>"
  using assms by (simp add: main_def Let_def)

text \<open>
  C7. When the dictionary answers the request for a word: a response that is not ok makes
  \<open>fetchWordData\<close> raise an error, whose message contains the word itself on status 404
  and is "API request failed with status: N" on any other status outside 200 to 299; an
  ok response yields what \<open>response.json()\<close> yields, and so an error only when the body
  is no JSON. Whenever \<open>fetchWordData\<close> raises, \<open>main\<close> writes the error to standard
  error and nothing to standard output: no rendering takes place.
\<close>

theorem fetchWordData_errors:
  assumes "fetch e (lit ''https://api.dictionaryapi.dev/api/v2/entries/en/'' @ w) = Responded r"
  shows "(\<not> ok r \<longrightarrow>
            fetchWordData (fetch e) w =
              Inl (Error (if status r = 404 then not_found_message w
                          else lit ''API request failed with status: '' @ decimal (status r))))
       \<and> (ok r \<longrightarrow> fetchWordData (fetch e) w = json_body r)
       \<and> (\<exists>a b. not_found_message w = a @ w @ b)
       \<and> (loadWordList (styling e) (defaultSource e) (customSource e) = (warnings, Inr wordList)
            \<and> template (getWordOfTheDay (timeZone e) (clock e) wordList) = w
            \<and> fetchWordData (fetch e) w = Inl err
          \<longrightarrow> main e = \<lparr> stdout = [], stderr = warnings @ [errorLine (styling e) err] \<rparr>)"
proof -
  have "\<exists>a b. not_found_message w = a @ w @ b"
    unfolding not_found_message_def by (metis append.assoc)
  then show ?thesis
    using assms main_fetch_failure[of e warnings wordList err]
    by (auto simp: fetchWordData_def Let_def)
qed

theorem fetchWordData_errors_witness:
  "main \<lparr> styling = plain, defaultSource = Body (strings [lit ''zzzqx'']), customSource = NoHome,
          timeZone = (\<lambda>t. 0), clock = \<lparr> fullYear = 2024, month = 0, date = 3, msOfDay = 0 \<rparr>,
          fetch = (\<lambda>url. Responded \<lparr> status = 404, json_body = Inr [] \<rparr>), columns = 84 \<rparr>
   = \<lparr> stdout = [], stderr = [errorLine plain (Error (not_found_message (lit ''zzzqx'')))] \<rparr>"
proof -
  let ?r = "\<lparr> status = 404, json_body = Inr [] \<rparr>"
  let ?now = "\<lparr> fullYear = 2024, month = 0, date = 3, msOfDay = 0 \<rparr>"
  let ?e = "\<lparr> styling = plain, defaultSource = Body (strings [lit ''zzzqx'']), customSource = NoHome,
          timeZone = (\<lambda>t. 0), clock = ?now,
          fetch = (\<lambda>url. Responded ?r), columns = 84 \<rparr>"
  have 1: "fetch ?e (lit ''https://api.dictionaryapi.dev/api/v2/entries/en/'' @ lit ''zzzqx'') = Responded ?r"
    by simp
  have 2: "loadWordList (styling ?e) (defaultSource ?e) (customSource ?e) = ([], Inr (strings [lit ''zzzqx'']))"
    using mergeLists_strings[of "[lit ''zzzqx'']" "[]"]
    by (simp add: loadWordList_def) (simp add: strings_def)
  have "getWordOfTheDay (\<lambda>t. 0) ?now (strings [lit ''zzzqx'']) = Some (JString (lit ''zzzqx''))"
    using getWordOfTheDay_fixed_offset[of "\<lambda>t. 0" 0 ?now "strings [lit ''zzzqx'']"]
    by (simp add: msPerDay_def strings_def)
  then have 3: "template (getWordOfTheDay (timeZone ?e) (clock ?e) (strings [lit ''zzzqx''])) = lit ''zzzqx''"
    by (simp add: template_def)
  have 4: "\<not> ok ?r" by (simp add: ok_def)
  from fetchWordData_errors[OF 1, of "[]" "strings [lit ''zzzqx'']" "Error (not_found_message (lit ''zzzqx''))"] 2 3 4
  show ?thesis by simp
qed

text \<open>The specification states more than holds: a response with status 200 is ok, and
  \<open>fetchWordData\<close> raises all the same when its body is no JSON.\<close>

theorem fetchWordData_errors_counterexample:
  "ok \<lparr> status = 200, json_body = Inl (SyntaxError (lit ''Unexpected end of JSON input'')) \<rparr>
   \<and> fetchWordData
        (\<lambda>url. Responded \<lparr> status = 200,
                             json_body = Inl (SyntaxError (lit ''Unexpected end of JSON input'')) \<rparr>)
        (lit ''zzzqx'')
      = Inl (SyntaxError (lit ''Unexpected end of JSON input''))"
  by (simp add: ok_def fetchWordData_def)

section \<open>The width of the box\<close>

lemma length_lit [simp]: "length (lit s) = length s"
  by (simp add: lit_def)

lemma plain_simps [simp]:
  "bold plain s = s" "cyan plain s = s" "gray plain s = s"
  "italic plain s = s" "magenta plain s = s" "yellow plain s = s"
  by (simp_all add: plain_def)

lemma length_pad: "int (length (pad cw s)) = max cw (int (length s) + 1)"
  by (simp add: pad_def padEnd_def)

lemma length_print_pad:
  "int (length (print plain (pad cw s))) = max (cw + 2) (int (length s) + 3)"
  using length_pad[of cw s] by (simp add: print_def)

lemma wrap_lines_fit:
  assumes "words_fit cw prefix text" "s \<in> set (wrap_lines cw text prefix)"
  shows "int (length s) \<le> cw - 1"
proof -
  from wrap_lines_shape[OF assms(2)]
  consider "int (length s) \<le> cw - 2 - int (length prefix)" | "s = prefix"
    | w where "w \<in> set (split_space text)" "s = prefix @ w"
    by (auto simp: line_shape_def)
  then show ?thesis
  proof cases
    case 1
    then show ?thesis by simp
  next
    case 2
    then show ?thesis using assms(1) by (simp add: words_fit_def)
  next
    case 3
    then show ?thesis using assms(1) by (auto simp: words_fit_def)
  qed
qed

lemma wrap_printed_eq:
  "words_fit cw prefix text \<Longrightarrow> 1 \<le> cw \<Longrightarrow>
   x \<in> set (wrap cw text prefix) \<Longrightarrow> int (length (print plain x)) = cw + 2"
  using length_print_pad wrap_lines_fit by (fastforce simp: wrap_map_pad)

lemma definitionLines_eq:
  "definition_fits cw d \<Longrightarrow> 1 \<le> cw \<Longrightarrow>
   l \<in> set (definitionLines plain cw d) \<Longrightarrow> int (length l) = cw + 2"
  by (cases d)
     (auto simp: definitionLines_def definition_fits_def wrap_printed_eq
           split: option.splits if_splits)

lemma meaningLines_eq:
  "meaning_fits cw (snd m) \<Longrightarrow> 1 \<le> cw \<Longrightarrow>
   l \<in> set (meaningLines plain cw n m) \<Longrightarrow> int (length l) = cw + 2"
  by (cases m)
     (auto simp: meaningLines_def meaning_fits_def definitionLines_eq length_print_pad
           split: if_splits)

lemma thesaurusLines_eq:
  "entry_fits cw entry \<Longrightarrow> int (length sep) = cw + 2 \<Longrightarrow>
   l \<in> set (thesaurusLines plain cw sep entry) \<Longrightarrow> int (length l) = cw + 2"
  by (auto simp: thesaurusLines_def Let_def entry_fits_def wrap_printed_eq length_print_pad
           split: if_splits)

lemma in_enumerate_snd: "m \<in> set (enumerate k xs) \<Longrightarrow> snd m \<in> set xs"
  by (cases m) (auto simp: in_set_enumerate_eq)

lemma concat_replicate_single: "concat (replicate n [x]) = replicate n x"
  by (induction n) auto

lemma print_pad_content: "print plain (pad cw s) = content_line cw s"
  by (simp add: print_def pad_def padEnd_def content_line_def)

lemma length_content_line:
  "int (length (content_line cw s)) = max (cw + 2) (int (length s) + 3)"
  by (simp add: content_line_def)

lemma length_border: "0 \<le> cw \<Longrightarrow> int (length (border a b cw)) = cw + 2"
  by (simp add: border_def)

lemma body_fits:
  assumes "entry_fits cw entry" "int (length sep) = cw + 2"
    and "l \<in> set (concat (map (meaningLines plain cw n) (enumerate 0 (meanings entry)))
                   @ thesaurusLines plain cw sep entry)"
  shows "int (length l) = cw + 2"
proof (cases "l \<in> set (thesaurusLines plain cw sep entry)")
  case True
  then show ?thesis using thesaurusLines_eq[OF assms(1,2)] by simp
next
  case False
  with assms(3) obtain m where m: "m \<in> set (enumerate 0 (meanings entry))"
      "l \<in> set (meaningLines plain cw n m)" by auto
  have "meaning_fits cw (snd m)"
    using in_enumerate_snd[OF m(1)] assms(1) by (simp add: entry_fits_def)
  moreover have "1 \<le> cw" using assms(1) by (simp add: entry_fits_def)
  ultimately show ?thesis using meaningLines_eq m(2) by blast
qed

lemma displayWord_plain_lines:
  assumes "0 \<le> contentWidth tw"
  shows "displayWord plain tw (entry # rest) =
        Inr \<lparr> stdout = [border box_tl box_tr (contentWidth tw),
                        content_line (contentWidth tw) (word entry @ lit ''  '' @ phoneticText entry),
                        border box_l box_r (contentWidth tw)]
                       @ (concat (map (meaningLines plain (contentWidth tw) (length (meanings entry)))
                                    (enumerate 0 (meanings entry)))
                          @ thesaurusLines plain (contentWidth tw) (border box_l box_r (contentWidth tw)) entry)
                       @ [border box_bl box_br (contentWidth tw)],
              stderr = [] \<rparr>"
proof -
  have "repeat [box_h] (contentWidth tw) = Inr (replicate (nat (contentWidth tw)) box_h)"
    using assms by (simp add: repeat_def concat_replicate_single)
  then show ?thesis
    by (simp add: displayWord_def Let_def border_def headerLine_def print_pad_content)
qed

text \<open>
  C6. The content width is \<open>min(80, terminalWidth - 4)\<close>, with no floor. From a terminal
  width of 4 on, the block is rendered; below 4 the content width is negative,
  \<open>repeat\<close> throws a RangeError and nothing is rendered.
\<close>

theorem contentWidth_no_floor:
  "contentWidth tw = min 80 (tw - 4)
   \<and> (4 \<le> tw \<longrightarrow> (\<exists>out. displayWord st tw (entry # rest) = Inr out \<and> stdout out \<noteq> []))
   \<and> (tw < 4 \<longrightarrow>
        displayWord st tw (entry # rest) =
          Inl (RangeError (lit ''Invalid count value: '' @ decimal_int (tw - 4))))"
  by (auto simp: contentWidth_def displayWord_def repeat_def Let_def min_def)

theorem contentWidth_no_floor_witness:
  "displayWord plain 4 [short_entry] =
     Inr \<lparr> stdout = [[box_tl, box_tr], [box_v] @ lit '' hi  /h/'' @ [box_v], [box_l, box_r],
                     [box_bl, box_br]],
           stderr = [] \<rparr>
   \<and> displayWord plain 3 [short_entry] = Inl (RangeError (lit ''Invalid count value: -1''))"
proof -
  have "decimal_int (- 1) = lit ''-1''"
    by (simp add: decimal_int_def decimal.simps lit_def)
  moreover have "displayWord plain 4 [short_entry] =
     Inr \<lparr> stdout = [[box_tl, box_tr], [box_v] @ lit '' hi  /h/'' @ [box_v], [box_l, box_r],
                     [box_bl, box_br]],
           stderr = [] \<rparr>"
    by (simp add: displayWord_def contentWidth_def repeat_def headerLine_def print_def pad_def
        padEnd_def phoneticText_def or_else_def thesaurusLines_def allSynonyms_def new_Set_def
        short_entry_def lit_def space_def)
  ultimately show ?thesis
    using contentWidth_no_floor[of 3 plain short_entry "[]"] by (simp add: lit_def)
qed

text \<open>The specification states more than holds: in a terminal of 3 columns nothing is clamped
  and nothing is rendered.\<close>

theorem contentWidth_floor_counterexample:
  "contentWidth 3 = - 1
   \<and> displayWord plain 3 [short_entry] = Inl (RangeError (lit ''Invalid count value: -1''))"
  by (simp add: displayWord_def contentWidth_def repeat_def decimal_int_def decimal.simps lit_def)

lemma wrap_printed: "map (print plain) (wrap cw text prefix) = map (content_line cw) (wrap_lines cw text prefix)"
  by (simp add: wrap_map_pad print_pad_content)

lemma definitionLines_texts:
  "definitionLines plain cw d = map (content_line cw) (definition_texts cw d)"
  by (cases d) (simp add: definitionLines_def definition_texts_def wrap_printed split: option.splits)

lemma definitionLines_texts_fun:
  "definitionLines plain cw = (\<lambda>d. map (content_line cw) (definition_texts cw d))"
  by (rule ext) (rule definitionLines_texts)

lemma meaningLines_texts:
  "meaningLines plain cw n m = map (content_line cw) (meaning_texts cw n m)"
  by (cases m)
     (simp add: meaningLines_def meaning_texts_def definitionLines_texts_fun print_pad_content
        map_concat comp_def)

lemma meaningLines_texts_fun:
  "meaningLines plain cw n = (\<lambda>m. map (content_line cw) (meaning_texts cw n m))"
  by (rule ext) (rule meaningLines_texts)

lemma thesaurusLines_texts:
  "thesaurusLines plain cw sep entry =
     (if allSynonyms entry \<noteq> [] then sep # map (content_line cw) (thesaurus_texts cw entry) else [])"
  by (simp add: thesaurusLines_def thesaurus_texts_def Let_def print_pad_content wrap_printed)

lemma box_lines_displayed:
  "box_lines cw entry =
     [border box_tl box_tr cw, content_line cw (word entry @ lit ''  '' @ phoneticText entry),
      border box_l box_r cw]
     @ (concat (map (meaningLines plain cw (length (meanings entry))) (enumerate 0 (meanings entry)))
        @ thesaurusLines plain cw (border box_l box_r cw) entry)
     @ [border box_bl box_br cw]"
  by (simp add: box_lines_def meaningLines_texts_fun thesaurusLines_texts map_concat comp_def)

text \<open>
  C1. With the styling switched off and a content width of at least 0, the rendered block
  is exactly the top border, the header, a separator, the texts of the body as content
  lines and the bottom border. A border or separator is its two glyphs around
  \<open>contentWidth\<close> bars: \<open>contentWidth + 2\<close> characters. A content line is the bar, a
  space, the text, spaces on the right of it up to \<open>contentWidth - 1\<close> characters of
  text, and the bar; it has \<open>contentWidth + 2\<close> characters when its text has at most
  \<open>contentWidth - 1\<close>, and three more than its text when the text is longer, which then
  overflows the box. So no line is shorter than \<open>contentWidth + 2\<close>, and all lines have
  that length for every entry in which the header, the labels and each single word after
  its prefix have at most \<open>contentWidth - 1\<close> characters.
\<close>

theorem displayWord_line_widths:
  assumes "0 \<le> contentWidth tw"
  shows "displayWord plain tw (entry # rest) =
           Inr \<lparr> stdout = box_lines (contentWidth tw) entry, stderr = [] \<rparr>
    \<and> (\<forall>l\<in>set (box_lines (contentWidth tw) entry). contentWidth tw + 2 \<le> int (length l))
    \<and> (entry_fits (contentWidth tw) entry \<longrightarrow>
         (\<forall>l\<in>set (box_lines (contentWidth tw) entry). int (length l) = contentWidth tw + 2))
    \<and> int (length (border a b (contentWidth tw))) = contentWidth tw + 2
    \<and> int (length (content_line (contentWidth tw) s)) =
        max (contentWidth tw + 2) (int (length s) + 3)"
proof (intro conjI)
  let ?cw = "contentWidth tw"
  show "displayWord plain tw (entry # rest) = Inr \<lparr> stdout = box_lines ?cw entry, stderr = [] \<rparr>"
    using displayWord_plain_lines[OF assms, of entry rest] by (simp add: box_lines_displayed)
  show "\<forall>l\<in>set (box_lines ?cw entry). ?cw + 2 \<le> int (length l)"
  proof
    fix l assume "l \<in> set (box_lines ?cw entry)"
    then have "(\<exists>x y. l = border x y ?cw) \<or> (\<exists>t. l = content_line ?cw t)"
      by (auto simp: box_lines_def split: if_splits)
    then show "?cw + 2 \<le> int (length l)"
      using length_border[OF assms] length_content_line[of ?cw] by auto
  qed
  show "entry_fits ?cw entry \<longrightarrow> (\<forall>l\<in>set (box_lines ?cw entry). int (length l) = ?cw + 2)"
  proof (intro impI ballI)
    fix l assume f: "entry_fits ?cw entry" and l: "l \<in> set (box_lines ?cw entry)"
    have h: "int (length (word entry @ lit ''  '' @ phoneticText entry)) \<le> ?cw - 1"
      using f by (simp add: entry_fits_def)
    from l consider "\<exists>x y. l = border x y ?cw"
      | "l = content_line ?cw (word entry @ lit ''  '' @ phoneticText entry)"
      | "l \<in> set (concat (map (meaningLines plain ?cw (length (meanings entry))) (enumerate 0 (meanings entry)))
                    @ thesaurusLines plain ?cw (border box_l box_r ?cw) entry)"
      unfolding box_lines_displayed by auto
    then show "int (length l) = ?cw + 2"
    proof cases
      case 1
      then show ?thesis using length_border[OF assms] by auto
    next
      case 2
      then show ?thesis using h length_content_line[of ?cw "word entry @ lit ''  '' @ phoneticText entry"] by simp
    next
      case 3
      then show ?thesis by (rule body_fits[OF f length_border[OF assms]])
    qed
  qed
  show "int (length (border a b ?cw)) = ?cw + 2"
    by (rule length_border[OF assms])
  show "int (length (content_line ?cw s)) = max (?cw + 2) (int (length s) + 3)"
    by (rule length_content_line)
qed

theorem displayWord_line_widths_witness:
  "displayWord plain 14 [small_entry] =
     Inr \<lparr> stdout = box_lines 10 small_entry, stderr = [] \<rparr>
   \<and> list_all (\<lambda>l. int (length l) = 12) (box_lines 10 small_entry)
   \<and> box_lines 10 small_entry =
       [border box_tl box_tr 10, content_line 10 (lit ''hi  /h/''), border box_l box_r 10,
        content_line 10 (lit ''noun''), content_line 10 (lit ''  1. a''), content_line 10 (lit ''  b''),
        content_line 10 (lit ''    ''), content_line 10 (lit ''    e.g.''),
        content_line 10 (lit ''    '' @ [quote] @ lit ''x'' @ [quote]),
        border box_l box_r 10, content_line 10 (lit ''Thesaurus''), content_line 10 (lit ''  yo''),
        border box_bl box_br 10]"
proof -
  have h: "0 \<le> contentWidth 14" by (simp add: contentWidth_def)
  have c: "contentWidth 14 = 10" by (simp add: contentWidth_def)
  have f: "entry_fits (contentWidth 14) small_entry"
    unfolding c
    by (simp add: entry_fits_def meaning_fits_def definition_fits_def words_fit_def small_entry_def
      allSynonyms_def new_Set_def set_add_def set_has_def phoneticText_def or_else_def
      decimal.simps lit_def space_def quote_def enumerate_eq_zip)
  have b: "box_lines 10 small_entry =
       [border box_tl box_tr 10, content_line 10 (lit ''hi  /h/''), border box_l box_r 10,
        content_line 10 (lit ''noun''), content_line 10 (lit ''  1. a''), content_line 10 (lit ''  b''),
        content_line 10 (lit ''    ''), content_line 10 (lit ''    e.g.''),
        content_line 10 (lit ''    '' @ [quote] @ lit ''x'' @ [quote]),
        border box_l box_r 10, content_line 10 (lit ''Thesaurus''), content_line 10 (lit ''  yo''),
        border box_bl box_br 10]"
    by (simp add: box_lines_def meaning_texts_def definition_texts_def thesaurus_texts_def
        wrap_lines_def line_step_def small_entry_def allSynonyms_def new_Set_def set_add_def
        set_has_def phoneticText_def or_else_def decimal.simps lit_def space_def quote_def
        enumerate_eq_zip)
  from displayWord_line_widths[OF h, of small_entry "[]" box_tl box_tr "[]"] f
  have "displayWord plain 14 [small_entry] = Inr \<lparr> stdout = box_lines 10 small_entry, stderr = [] \<rparr>"
    "\<forall>l\<in>set (box_lines 10 small_entry). int (length l) = 12"
    unfolding c by auto
  then show ?thesis
    using b by (simp add: list_all_iff)
qed

lemma replace_all_replicate:
  "c \<noteq> e \<Longrightarrow>
   replace_all (e # p) rep (replicate k c @ t) = replicate k c @ replace_all (e # p) rep t"
  by (induction k) auto

lemma visible_replicate:
  "c \<noteq> 27 \<Longrightarrow> visible (replicate k c @ t) = replicate k c @ visible t"
  by (induction k) auto

lemma replace_all_replicate_only:
  "c \<noteq> e \<Longrightarrow> replace_all (e # p) rep (replicate k c) = replicate k c"
  using replace_all_replicate[of c e p rep k "[]"] by simp

lemma visible_replicate_only: "c \<noteq> 27 \<Longrightarrow> visible (replicate k c) = replicate k c"
  using visible_replicate[of c k "[]"] by simp

text \<open>The specification states more than holds. With the styling off, at content width
  10, the header of a word of twenty letters has 25 characters between borders of 12. With
  the colours on, in a terminal of 84 columns, an entry in which everything fits comes out
  with lines of different lengths, whether one counts the characters of the strings or
  the columns they take: the padding counts the escape sequences of the styled text.\<close>

theorem displayWord_width_counterexample:
  "contentWidth 14 = 10
   \<and> (case displayWord plain 14 [long_entry] of
        Inl e \<Rightarrow> False
      | Inr out \<Rightarrow> map length (stdout out) = [12, 25, 12, 12])
   \<and> contentWidth 84 = 80
   \<and> entry_fits 80 small_entry
   \<and> (case displayWord ansi 84 [small_entry] of
        Inl e \<Rightarrow> False
      | Inr out \<Rightarrow>
          map (\<lambda>l. length (visible l)) (stdout out) = [82, 44, 82, 72, 82, 73, 82, 63, 82, 82]
          \<and> map length (stdout out) = [101, 120, 101, 120, 120, 130, 101, 120, 120, 101])"
proof -
  have "case displayWord plain 14 [long_entry] of
          Inl e \<Rightarrow> False
        | Inr out \<Rightarrow> map length (stdout out) = [12, 25, 12, 12]"
    by (simp add: displayWord_def contentWidth_def repeat_def headerLine_def print_def pad_def
        padEnd_def phoneticText_def or_else_def thesaurusLines_def allSynonyms_def new_Set_def
        long_entry_def)
  moreover have "entry_fits 80 small_entry"
    by (simp add: entry_fits_def meaning_fits_def definition_fits_def words_fit_def
        small_entry_def allSynonyms_def new_Set_def set_add_def set_has_def phoneticText_def
        or_else_def decimal.simps lit_def space_def quote_def enumerate_eq_zip)
  moreover have "case displayWord ansi 84 [small_entry] of
          Inl e \<Rightarrow> False
        | Inr out \<Rightarrow>
            map (\<lambda>l. length (visible l)) (stdout out) = [82, 44, 82, 72, 82, 73, 82, 63, 82, 82]"
    by (simp add: displayWord_def contentWidth_def repeat_def headerLine_def print_def pad_def
      padEnd_def phoneticText_def or_else_def thesaurusLines_def allSynonyms_def new_Set_def
      set_add_def set_has_def meaningLines_def definitionLines_def wrap_def wrap_step_def
      small_entry_def ansi_def run_def esc_def lit_def space_def quote_def box_h_def box_v_def
      box_tl_def box_tr_def box_bl_def box_br_def box_l_def box_r_def decimal.simps
      enumerate_eq_zip Let_def replace_all_replicate visible_replicate
      replace_all_replicate_only visible_replicate_only)
  moreover have "case displayWord ansi 84 [small_entry] of
          Inl e \<Rightarrow> False
        | Inr out \<Rightarrow>
            map length (stdout out) = [101, 120, 101, 120, 120, 130, 101, 120, 120, 101]"
    by (simp add: displayWord_def contentWidth_def repeat_def headerLine_def print_def pad_def
      padEnd_def phoneticText_def or_else_def thesaurusLines_def allSynonyms_def new_Set_def
      set_add_def set_has_def meaningLines_def definitionLines_def wrap_def wrap_step_def
      small_entry_def ansi_def run_def esc_def lit_def space_def quote_def box_h_def box_v_def
      box_tl_def box_tr_def box_bl_def box_br_def box_l_def box_r_def decimal.simps
      enumerate_eq_zip Let_def replace_all_replicate visible_replicate
      replace_all_replicate_only visible_replicate_only)
  ultimately show ?thesis
    by (auto simp: contentWidth_def split: sum.splits)
qed

end
